theory Spec2Isabelle
  imports Main
begin

section \<open>The pf input plugin: parsing the output of \<open>pfctl -s info\<close>\<close>

text \<open>
  This theory embeds \<open>plugins/inputs/pf/pf.go\<close>. Go strings are byte strings and are
  modelled as \<open>string\<close> (lists of 8-bit characters). The regular expressions of the
  source only test ASCII classes, so matching bytes and matching runes agree.
\<close>

subsection \<open>Character classes of the regular expressions\<close>

text \<open>\<open>\s\<close> of Go's regexp is \<open>[\t\n\f\r ]\<close>, \<open>\d\<close> is \<open>[0-9]\<close>.\<close>

definition is_space :: "char \<Rightarrow> bool" where
  "is_space c \<longleftrightarrow> c = CHR '' '' \<or> c = CHR 0x09 \<or> c = CHR 0x0A \<or> c = CHR 0x0C \<or> c = CHR 0x0D"

definition is_digit :: "char \<Rightarrow> bool" where
  "is_digit c \<longleftrightarrow> c \<in> set ''0123456789''"

definition is_upper :: "char \<Rightarrow> bool" where
  "is_upper c \<longleftrightarrow> c \<in> set ''ABCDEFGHIJKLMNOPQRSTUVWXYZ''"

fun hasPrefix :: "string \<Rightarrow> string \<Rightarrow> bool" where
  "hasPrefix [] s = True"
| "hasPrefix (p # ps) [] = False"
| "hasPrefix (p # ps) (c # cs) = (p = c \<and> hasPrefix ps cs)"

subsection \<open>bufio.Scanner with the default split function ScanLines\<close>

text \<open>
  A scanner is the list of results its future calls of \<open>Scan\<close> will give, and the current
  token. \<open>Some t\<close> is a call that returns true with token \<open>t\<close>; \<open>None\<close> is a call that
  returns false; once the list is used up every call returns false. After a call that
  returns false, \<open>Text\<close> is the empty string.
\<close>

type_synonym scanner = "string option list \<times> string"

fun Scan :: "scanner \<Rightarrow> bool \<times> scanner" where
  "Scan ([], tok) = (False, ([], []))"
| "Scan (None # evs, tok) = (False, (evs, []))"
| "Scan (Some t # evs, tok) = (True, (evs, t))"

definition Text :: "scanner \<Rightarrow> string" where
  "Text sc = snd sc"

definition dropCR :: "string \<Rightarrow> string" where
  "dropCR s = (if s \<noteq> [] \<and> last s = CHR 0x0D then butlast s else s)"

text \<open>
  \<open>scanLines cur rest\<close>: the results of scanning \<open>rest\<close> when \<open>cur\<close> (reversed) is the
  part of the current line already read. A line ends at a newline; one trailing carriage
  return is dropped; a last line without newline is a token when it is not empty. The
  buffer holds at most \<open>bufio.MaxScanTokenSize = 65536\<close> bytes: when the first 65536
  bytes of a line hold no newline, \<open>Scan\<close> returns false (ErrTooLong); one more call then
  hands out those buffered bytes as a token, and the rest of the input is never read.
\<close>

fun scanLines :: "string \<Rightarrow> string \<Rightarrow> string option list" where
  "scanLines cur [] = (if cur = [] then [] else [Some (dropCR (rev cur))])"
| "scanLines cur (c # cs) =
     (if c = CHR 0x0A then Some (dropCR (rev cur)) # scanLines [] cs
      else if 65535 \<le> length cur then [None, Some (dropCR (rev (c # cur)))]
      else scanLines (c # cur) cs)"

definition NewScanner :: "string \<Rightarrow> scanner" where
  "NewScanner s = (scanLines [] s, [])"

subsection \<open>The regular expressions\<close>

text \<open>\<open>^[A-Z]\<close>\<close>

definition anyTableHeaderRE :: "string \<Rightarrow> bool" where
  "anyTableHeaderRE line = (case line of [] \<Rightarrow> False | c # _ \<Rightarrow> is_upper c)"

text \<open>
  \<open>^(\s+Packets In|\s+Packets Out)\<close>; the result is submatch 1. The greedy \<open>\s+\<close> must
  take the whole leading run of white space, because the literal starts with \<open>P\<close>.
\<close>

definition packetsRE :: "string \<Rightarrow> string option" where
  "packetsRE line =
     (let w = takeWhile is_space line; r = dropWhile is_space line
      in if w = [] then None
         else if hasPrefix ''Packets In'' r then Some (w @ ''Packets In'')
         else if hasPrefix ''Packets Out'' r then Some (w @ ''Packets Out'')
         else None)"

text \<open>
  \<open>\s+(\d+)\<close> at the start of \<open>t\<close>: both runs are maximal, since a shorter run of white
  space is followed by white space and not by a digit. The result is the digit run and
  what follows it.
\<close>

definition ws_digits :: "string \<Rightarrow> (string \<times> string) option" where
  "ws_digits t =
     (let w = takeWhile is_space t; r = dropWhile is_space t;
          d = takeWhile is_digit r
      in if w = [] \<or> d = [] then None else Some (d, dropWhile is_digit r))"

text \<open>
  \<open>\s+(\d+)\s+(\d+)\<close> at the start of \<open>t\<close>: the first digit run is maximal too, since a
  shorter one is followed by a digit and not by white space.
\<close>

definition ws_digits2 :: "string \<Rightarrow> (string \<times> string) option" where
  "ws_digits2 t =
     (case ws_digits t of None \<Rightarrow> None
      | Some (d1, r) \<Rightarrow>
          (case ws_digits r of None \<Rightarrow> None | Some (d2, _) \<Rightarrow> Some (d1, d2)))"

text \<open>\<open>^(\s+Bytes In|\s+Bytes Out)\s+(\d+)\s+(\d+)\<close>; the result is submatches 1, 2, 3.\<close>

definition bytesRE :: "string \<Rightarrow> (string \<times> string \<times> string) option" where
  "bytesRE line =
     (let w = takeWhile is_space line; r = dropWhile is_space line
      in if w = [] then None
         else if hasPrefix ''Bytes In'' r then
           (case ws_digits2 (drop 8 r) of None \<Rightarrow> None
            | Some (d1, d2) \<Rightarrow> Some (w @ ''Bytes In'', d1, d2))
         else if hasPrefix ''Bytes Out'' r then
           (case ws_digits2 (drop 9 r) of None \<Rightarrow> None
            | Some (d1, d2) \<Rightarrow> Some (w @ ''Bytes Out'', d1, d2))
         else None)"

text \<open>
  \<open>(.*?)\<close> followed by the expression \<open>re\<close>: the lazy star tries the shortest label first, and \<open>.\<close>
  does not match a newline.
\<close>

fun lazy_dot :: "(string \<Rightarrow> 'a option) \<Rightarrow> string \<Rightarrow> (string \<times> 'a) option" where
  "lazy_dot re [] = (case re [] of None \<Rightarrow> None | Some x \<Rightarrow> Some ([], x))"
| "lazy_dot re (c # cs) =
     (case re (c # cs) of Some x \<Rightarrow> Some ([], x)
      | None \<Rightarrow>
          if c = CHR 0x0A then None
          else (case lazy_dot re cs of None \<Rightarrow> None | Some (l, x) \<Rightarrow> Some (c # l, x)))"

text \<open>
  \<open>^\s+\<close> followed by \<open>(.*?)\<close> and \<open>re\<close>: the greedy \<open>\s+\<close> tries the \<open>k\<close> leading
  white-space characters, then \<open>k - 1\<close>, down to one.
\<close>

fun greedy_ws :: "(string \<Rightarrow> 'a option) \<Rightarrow> string \<Rightarrow> nat \<Rightarrow> (string \<times> 'a) option" where
  "greedy_ws re line 0 = None"
| "greedy_ws re line (Suc k) =
     (case lazy_dot re (drop (Suc k) line) of Some x \<Rightarrow> Some x
      | None \<Rightarrow> greedy_ws re line k)"

text \<open>\<open>^\s+(.*?)\s+(\d+)\s+(\d+)\<close>; the result is submatches 1, 2, 3.\<close>

definition IPvRE :: "string \<Rightarrow> (string \<times> string \<times> string) option" where
  "IPvRE line = greedy_ws ws_digits2 line (length (takeWhile is_space line))"

text \<open>\<open>^\s+(.*?)\s+(\d+)\<close>; the result is submatches 1 and 2.\<close>

definition label_value_RE :: "string \<Rightarrow> (string \<times> string) option" where
  "label_value_RE line =
     map_option (\<lambda>(l, d, r). (l, d))
       (greedy_ws ws_digits line (length (takeWhile is_space line)))"

definition interfaceTableRE :: "string \<Rightarrow> (string \<times> string) option" where
  "interfaceTableRE = label_value_RE"

definition stateTableRE :: "string \<Rightarrow> (string \<times> string) option" where
  "stateTableRE = label_value_RE"

definition counterTableRE :: "string \<Rightarrow> (string \<times> string) option" where
  "counterTableRE = label_value_RE"

subsection \<open>Errors and strconv.ParseInt\<close>

datatype error =
    errParseHeader
  | errMissingData string
  | ErrSyntax string
  | ErrRange string

definition digit_val :: "char \<Rightarrow> int" where
  "digit_val c = of_char c - 48"

definition decimal :: "string \<Rightarrow> int" where
  "decimal ds = foldl (\<lambda>n c. 10 * n + digit_val c) 0 ds"

text \<open>
  \<open>strconv.ParseInt(s, 10, 64)\<close>: an optional sign, then one or more decimal digits. On a
  syntax error the value is 0; out of range the value is the nearest bound of int64. Both
  come with an error.
\<close>

definition ParseInt :: "string \<Rightarrow> int \<times> error option" where
  "ParseInt s =
     (let neg = (s \<noteq> [] \<and> hd s = CHR ''-'');
          ds = (if s \<noteq> [] \<and> (hd s = CHR ''+'' \<or> hd s = CHR ''-'') then tl s else s)
      in if ds = [] \<or> \<not> list_all is_digit ds then (0, Some (ErrSyntax s))
         else if \<not> neg \<and> 2 ^ 63 \<le> decimal ds then (2 ^ 63 - 1, Some (ErrRange s))
         else if neg \<and> 2 ^ 63 < decimal ds then (- (2 ^ 63), Some (ErrRange s))
         else ((if neg then - decimal ds else decimal ds), None))"

subsection \<open>Entries and field extraction\<close>

record Entry =
  Field :: string
  PfctlTitle :: string
  Value :: int

definition mkEntry :: "string \<Rightarrow> string \<Rightarrow> int \<Rightarrow> Entry" where
  "mkEntry f t v = \<lparr>Field = f, PfctlTitle = t, Value = v\<rparr>"

definition InterfaceTable :: "Entry list" where
  "InterfaceTable =
    [mkEntry ''bytes4-in'' ''Bytes In IPv4'' (-1),
     mkEntry ''bytes4-out'' ''Bytes Out IPv4'' (-1),
     mkEntry ''bytes6-in'' ''Bytes In IPv6'' (-1),
     mkEntry ''bytes6-out'' ''Bytes Out IPv6'' (-1),
     mkEntry ''packets4-in-passed'' ''Packets In Passed IPv4'' (-1),
     mkEntry ''packets4-in-blocked'' ''Packets In Blocked IPv4'' (-1),
     mkEntry ''packets4-out-passed'' ''Packets Out Passed IPv4'' (-1),
     mkEntry ''packets4-out-blocked'' ''Packets Out Blocked IPv4'' (-1),
     mkEntry ''packets6-in-passed'' ''Packets In Passed IPv6'' (-1),
     mkEntry ''packets6-in-blocked'' ''Packets In Blocked IPv6'' (-1),
     mkEntry ''packets6-out-passed'' ''Packets Out Passed IPv6'' (-1),
     mkEntry ''packets6-out-blocked'' ''Packets Out Blocked IPv6'' (-1)]"

definition StateTable :: "Entry list" where
  "StateTable =
    [mkEntry ''entries'' ''current entries'' (-1),
     mkEntry ''searches'' ''searches'' (-1),
     mkEntry ''inserts'' ''inserts'' (-1),
     mkEntry ''removals'' ''removals'' (-1)]"

definition CounterTable :: "Entry list" where
  "CounterTable =
    [mkEntry ''match'' ''match'' (-1),
     mkEntry ''bad-offset'' ''bad-offset'' (-1),
     mkEntry ''fragment'' ''fragment'' (-1),
     mkEntry ''short'' ''short'' (-1),
     mkEntry ''normalize'' ''normalize'' (-1),
     mkEntry ''memory'' ''memory'' (-1),
     mkEntry ''bad-timestamp'' ''bad-timestamp'' (-1),
     mkEntry ''congestion'' ''congestion'' (-1),
     mkEntry ''ip-option'' ''ip-option'' (-1),
     mkEntry ''proto-cksum'' ''proto-cksum'' (-1),
     mkEntry ''state-mismatch'' ''state-mismatch'' (-1),
     mkEntry ''state-insert'' ''state-insert'' (-1),
     mkEntry ''state-limit'' ''state-limit'' (-1),
     mkEntry ''src-limit'' ''src-limit'' (-1),
     mkEntry ''synproxy'' ''synproxy'' (-1)]"

type_synonym fields = "string \<rightharpoonup> int"

text \<open>
  The inner loop of \<open>storeFieldValues\<close> over the entry table, for one matched line: every
  entry whose title is the label takes the parsed value; a parse error returns at once,
  after the assignment to that entry.
\<close>

fun store_entries :: "string \<Rightarrow> string \<Rightarrow> Entry list \<Rightarrow> error option \<times> Entry list" where
  "store_entries lab val [] = (None, [])"
| "store_entries lab val (f # fs) =
     (if PfctlTitle f = lab then
        (case ParseInt val of
           (v, Some e) \<Rightarrow> (Some e, f\<lparr>Value := v\<rparr> # fs)
         | (v, None) \<Rightarrow>
             (case store_entries lab val fs of (r, fs') \<Rightarrow> (r, f\<lparr>Value := v\<rparr> # fs')))
      else (case store_entries lab val fs of (r, fs') \<Rightarrow> (r, f # fs')))"

text \<open>The first loop of \<open>storeFieldValues\<close>, over the lines.\<close>

fun store_lines ::
  "(string \<Rightarrow> (string \<times> string) option) \<Rightarrow> string list \<Rightarrow> Entry list \<Rightarrow> error option \<times> Entry list"
where
  "store_lines regex [] tbl = (None, tbl)"
| "store_lines regex (v # vs) tbl =
     (case regex v of
        None \<Rightarrow> store_lines regex vs tbl
      | Some (lab, val) \<Rightarrow>
          (case store_entries lab val tbl of
             (Some e, tbl') \<Rightarrow> (Some e, tbl')
           | (None, tbl') \<Rightarrow> store_lines regex vs tbl'))"

text \<open>The second loop of \<open>storeFieldValues\<close>: the sentinel check and the copy to the map.\<close>

fun copy_fields :: "Entry list \<Rightarrow> fields \<Rightarrow> error option \<times> fields" where
  "copy_fields [] m = (None, m)"
| "copy_fields (v # vs) m =
     (if Value v = -1 then (Some (errMissingData (PfctlTitle v)), m)
      else copy_fields vs (m(Field v \<mapsto> Value v)))"

definition storeFieldValues ::
  "string list \<Rightarrow> (string \<Rightarrow> (string \<times> string) option) \<Rightarrow> fields \<Rightarrow> Entry list
     \<Rightarrow> error option \<times> fields \<times> Entry list"
where
  "storeFieldValues lines regex flds entryTable =
     (case store_lines regex lines entryTable of
        (Some e, tbl) \<Rightarrow> (Some e, flds, tbl)
      | (None, tbl) \<Rightarrow> (case copy_fields tbl flds of (r, flds') \<Rightarrow> (r, flds', tbl)))"

subsection \<open>The stanzas and the mutable package variables\<close>

datatype parse_func = ParseInterfaceTable | ParseStateTable | ParseCounterTable

text \<open>\<open>HeaderRE\<close> holds the literal that follows \<open>^\<close> in the header expression.\<close>

record pfctlOutputStanza =
  HeaderRE :: string
  ParseFunc :: parse_func
  Found :: bool
  Optional :: bool

definition pfctlOutputStanzas :: "pfctlOutputStanza list" where
  "pfctlOutputStanzas =
    [\<lparr>HeaderRE = ''Interface Stats'', ParseFunc = ParseInterfaceTable,
      Found = False, Optional = True\<rparr>,
     \<lparr>HeaderRE = ''State Table'', ParseFunc = ParseStateTable,
      Found = False, Optional = False\<rparr>,
     \<lparr>HeaderRE = ''Counters'', ParseFunc = ParseCounterTable,
      Found = False, Optional = False\<rparr>]"

text \<open>
  The three entry tables are package variables whose \<open>Value\<close> slots are assigned in
  place, and so are the \<open>Found\<close> flags of the stanzas: they are the state a call starts
  from and leaves behind.
\<close>

record tables =
  varInterfaceTable :: "Entry list"
  varStateTable :: "Entry list"
  varCounterTable :: "Entry list"

record pf_vars =
  Stanzas :: "pfctlOutputStanza list"
  Tables :: tables

definition fresh_tables :: tables where
  "fresh_tables =
     \<lparr>varInterfaceTable = InterfaceTable, varStateTable = StateTable,
      varCounterTable = CounterTable\<rparr>"

definition fresh_vars :: pf_vars where
  "fresh_vars = \<lparr>Stanzas = pfctlOutputStanzas, Tables = fresh_tables\<rparr>"

definition parseInterfaceTable ::
  "string list \<Rightarrow> fields \<Rightarrow> tables \<Rightarrow> error option \<times> fields \<times> tables" where
  "parseInterfaceTable lines flds tb =
     (case storeFieldValues lines interfaceTableRE flds (varInterfaceTable tb) of
        (r, flds', t) \<Rightarrow> (r, flds', tb\<lparr>varInterfaceTable := t\<rparr>))"

definition parseStateTable ::
  "string list \<Rightarrow> fields \<Rightarrow> tables \<Rightarrow> error option \<times> fields \<times> tables" where
  "parseStateTable lines flds tb =
     (case storeFieldValues lines stateTableRE flds (varStateTable tb) of
        (r, flds', t) \<Rightarrow> (r, flds', tb\<lparr>varStateTable := t\<rparr>))"

definition parseCounterTable ::
  "string list \<Rightarrow> fields \<Rightarrow> tables \<Rightarrow> error option \<times> fields \<times> tables" where
  "parseCounterTable lines flds tb =
     (case storeFieldValues lines counterTableRE flds (varCounterTable tb) of
        (r, flds', t) \<Rightarrow> (r, flds', tb\<lparr>varCounterTable := t\<rparr>))"

fun call_ParseFunc ::
  "parse_func \<Rightarrow> string list \<Rightarrow> fields \<Rightarrow> tables \<Rightarrow> error option \<times> fields \<times> tables" where
  "call_ParseFunc ParseInterfaceTable = parseInterfaceTable"
| "call_ParseFunc ParseStateTable = parseStateTable"
| "call_ParseFunc ParseCounterTable = parseCounterTable"

subsection \<open>Collecting the lines of a stanza\<close>

text \<open>
  One turn of the loop \<open>for i := 0; i < 2; i++\<close> after a Packets line: the next line, when
  there is one, becomes the current line, and when it matches \<open>IPvRE\<close> two lines are
  appended; \<open>e\<close> is submatch 1 of \<open>packetsRE\<close>.
\<close>

definition packets_sub ::
  "string \<Rightarrow> scanner \<times> string \<times> string list \<Rightarrow> scanner \<times> string \<times> string list" where
  "packets_sub e = (\<lambda>(sc, line, stanzaLines).
     (case Scan sc of
        (hasMore, sc') \<Rightarrow>
          if hasMore then
            (case IPvRE (Text sc') of
               Some (l, v4, v6) \<Rightarrow>
                 (sc', Text sc',
                  stanzaLines @ [e @ '' '' @ l @ '' IPv4 '' @ v4, e @ '' '' @ l @ '' IPv6 '' @ v6])
             | None \<Rightarrow> (sc', Text sc', stanzaLines))
          else (sc', line, stanzaLines)))"

text \<open>The body of the collecting loop, up to its closing \<open>scanner.Scan()\<close>.\<close>

definition stanza_line ::
  "scanner \<times> string \<times> string list \<Rightarrow> scanner \<times> string \<times> string list" where
  "stanza_line = (\<lambda>(sc, line, stanzaLines).
     (case packetsRE line of
        Some e \<Rightarrow> packets_sub e (packets_sub e (sc, line, stanzaLines))
      | None \<Rightarrow>
          (case bytesRE line of
             Some (e1, e2, e3) \<Rightarrow>
               (sc, line, stanzaLines @ [e1 @ '' IPv4 '' @ e2, e1 @ '' IPv6 '' @ e3])
           | None \<Rightarrow> (sc, line, stanzaLines @ [line]))))"

lemma Scan_length: "length (fst (snd (Scan sc))) \<le> length (fst sc)"
  by (cases sc rule: Scan.cases) auto

lemma Scan_more_length: "Scan sc = (True, sc') \<Longrightarrow> length (fst sc') < length (fst sc)"
  by (cases sc rule: Scan.cases) auto

lemma packets_sub_length: "length (fst (fst (packets_sub e x))) \<le> length (fst (fst x))"
proof -
  obtain sc line ls where x: "x = (sc, line, ls)" by (cases x) auto
  have "length (fst (snd (Scan sc))) \<le> length (fst sc)" by (rule Scan_length)
  then show ?thesis
    unfolding x packets_sub_def by (cases "Scan sc") (auto split: option.splits)
qed

lemma stanza_line_length: "length (fst (fst (stanza_line x))) \<le> length (fst (fst x))"
proof -
  obtain sc line ls where x: "x = (sc, line, ls)" by (cases x) auto
  have "length (fst (fst (packets_sub e (packets_sub e x)))) \<le> length (fst (fst x))" for e
    using packets_sub_length [of e "packets_sub e x"] packets_sub_length [of e x] by linarith
  then show ?thesis
    unfolding stanza_line_def x by (auto split: option.splits)
qed

text \<open>
  The loop \<open>for !anyTableHeaderRE.MatchString(line)\<close>, entered with the line that follows
  the header. It returns the scanner, the current line and the collected lines.
\<close>

function collect ::
  "scanner \<Rightarrow> string \<Rightarrow> string list \<Rightarrow> scanner \<times> string \<times> string list" where
  "collect sc line stanzaLines =
     (if anyTableHeaderRE line then (sc, line, stanzaLines)
      else
        (case stanza_line (sc, line, stanzaLines) of
           (sc1, line1, lines1) \<Rightarrow>
             (case Scan sc1 of
                (hasMore, sc2) \<Rightarrow>
                  if hasMore then collect sc2 (Text sc2) lines1 else (sc2, line1, lines1))))"
  by pat_completeness auto
termination
proof (relation "measure (\<lambda>(sc, line, stanzaLines). length (fst sc))", goal_cases)
  case 1
  show ?case by simp
next
  case (2 sc line stanzaLines sc1 y line1 lines1 hasMore sc2)
  have "fst (stanza_line (sc, line, stanzaLines)) = sc1"
    using 2(2) by (metis fst_conv)
  then have "length (fst sc1) \<le> length (fst sc)"
    using stanza_line_length [of "(sc, line, stanzaLines)"] by simp
  moreover have "length (fst sc2) < length (fst sc1)"
    using 2(4) 2(5) Scan_more_length [of sc1 sc2] by simp
  ultimately show ?case by simp
qed

declare collect.simps [simp del]

lemma collect_length: "length (fst (fst (collect sc line ls))) \<le> length (fst sc)"
proof (induction sc line ls rule: collect.induct)
  case (1 sc line stanzaLines)
  show ?case
  proof (cases "anyTableHeaderRE line")
    case True
    then show ?thesis by (simp add: collect.simps [of sc line stanzaLines])
  next
    case False
    obtain sc1 line1 lines1 where sl: "stanza_line (sc, line, stanzaLines) = (sc1, line1, lines1)"
      by (cases "stanza_line (sc, line, stanzaLines)") auto
    obtain hasMore sc2 where scn: "Scan sc1 = (hasMore, sc2)"
      by (cases "Scan sc1") auto
    have a: "length (fst sc1) \<le> length (fst sc)"
      using stanza_line_length [of "(sc, line, stanzaLines)"] sl by simp
    have b: "length (fst sc2) \<le> length (fst sc1)"
      using Scan_length [of sc1] scn by simp
    show ?thesis
    proof (cases hasMore)
      case True
      have "length (fst (fst (collect sc2 (Text sc2) lines1))) \<le> length (fst sc2)"
        using "1.IH" [OF False sl [symmetric] refl scn [symmetric] True] .
      then show ?thesis
        using False sl scn True a b by (simp add: collect.simps [of sc line stanzaLines])
    next
      case False2: False
      then show ?thesis
        using False sl scn a b by (simp add: collect.simps [of sc line stanzaLines])
    qed
  qed
qed

text \<open>
  The loop \<open>for _, s := range pfctlOutputStanzas\<close> for one line of the outer loop. The
  current line is shared with the collecting loop: a stanza that ends at the header of the
  next one leaves that header as the line the remaining stanzas are tested on.
\<close>

fun range_stanzas ::
  "pfctlOutputStanza list \<Rightarrow> scanner \<Rightarrow> string \<Rightarrow> fields \<Rightarrow> tables
     \<Rightarrow> error option \<times> pfctlOutputStanza list \<times> scanner \<times> string \<times> fields \<times> tables"
where
  "range_stanzas [] sc line flds tb = (None, [], sc, line, flds, tb)"
| "range_stanzas (s # ss) sc line flds tb =
     (if hasPrefix (HeaderRE s) line then
        (case collect (snd (Scan sc)) (Text (snd (Scan sc))) [] of
           (sc', line', stanzaLines) \<Rightarrow>
             (case call_ParseFunc (ParseFunc s) stanzaLines flds tb of
                (Some perr, flds', tb') \<Rightarrow> (Some perr, s # ss, sc', line', flds', tb')
              | (None, flds', tb') \<Rightarrow>
                  (case range_stanzas ss sc' line' flds' tb' of
                     (r, ss', rest) \<Rightarrow> (r, s\<lparr>Found := True\<rparr> # ss', rest))))
      else
        (case range_stanzas ss sc line flds tb of
           (r, ss', rest) \<Rightarrow> (r, s # ss', rest)))"

lemma range_stanzas_length:
  "length (fst (fst (snd (snd (range_stanzas ss sc line flds tb))))) \<le> length (fst sc)"
proof (induction ss arbitrary: sc line flds tb)
  case Nil
  show ?case by simp
next
  case (Cons s ss)
  show ?case
  proof (cases "hasPrefix (HeaderRE s) line")
    case False
    then show ?thesis
      using Cons.IH [of sc line flds tb]
      by (cases "range_stanzas ss sc line flds tb") auto
  next
    case True
    obtain sc' line' stanzaLines where c:
      "collect (snd (Scan sc)) (Text (snd (Scan sc))) [] = (sc', line', stanzaLines)"
      by (cases "collect (snd (Scan sc)) (Text (snd (Scan sc))) []") auto
    have a: "length (fst sc') \<le> length (fst sc)"
      using collect_length [of "snd (Scan sc)" "Text (snd (Scan sc))" "[]"] Scan_length [of sc] c
      by simp
    obtain r flds' tb' where p:
      "call_ParseFunc (ParseFunc s) stanzaLines flds tb = (r, flds', tb')"
      by (cases "call_ParseFunc (ParseFunc s) stanzaLines flds tb") auto
    show ?thesis
      using True c p a Cons.IH [of sc' line' flds' tb']
      by (cases r; cases "range_stanzas ss sc' line' flds' tb'") auto
  qed
qed

function scan_loop ::
  "pfctlOutputStanza list \<Rightarrow> scanner \<Rightarrow> fields \<Rightarrow> tables
     \<Rightarrow> error option \<times> pfctlOutputStanza list \<times> fields \<times> tables"
where
  "scan_loop ss sc flds tb =
     (case Scan sc of
        (hasMore, sc1) \<Rightarrow>
          if hasMore then
            (case range_stanzas ss sc1 (Text sc1) flds tb of
               (Some perr, ss', sc2, line2, flds', tb') \<Rightarrow> (Some perr, ss', flds', tb')
             | (None, ss', sc2, line2, flds', tb') \<Rightarrow> scan_loop ss' sc2 flds' tb')
          else (None, ss, flds, tb))"
  by pat_completeness auto
termination
proof (relation "measure (\<lambda>(ss, sc, flds, tb). length (fst sc))", goal_cases)
  case 1
  show ?case by simp
next
  case (2 ss sc flds tb hasMore sc1 r rest ss' rest1 sc2 rest2 line2 rest3 flds' tb')
  have "Scan sc = (True, sc1)"
    using 2(1) 2(2) by simp
  then have a: "length (fst sc1) < length (fst sc)"
    by (rule Scan_more_length)
  have "range_stanzas ss sc1 (Text sc1) flds tb = (r, ss', sc2, line2, flds', tb')"
    using 2(3) 2(5) 2(6) 2(7) 2(8) by simp
  then have "length (fst sc2) \<le> length (fst sc1)"
    using range_stanzas_length [of ss sc1 "Text sc1" flds tb] by simp
  then show ?case
    using a by simp
qed

declare scan_loop.simps [simp del]

text \<open>The closing loop: every stanza that is not optional must have been found.\<close>

fun check_found :: "pfctlOutputStanza list \<Rightarrow> error option" where
  "check_found [] = None"
| "check_found (s # ss) =
     (if Optional s then check_found ss
      else if \<not> Found s then Some errParseHeader
      else check_found ss)"

subsection \<open>The accumulator and \<open>parsePfctlOutput\<close>\<close>

text \<open>The accumulator records the calls of \<open>AddFields\<close>: measurement, fields and tags.\<close>

type_synonym accumulator = "(string \<times> fields \<times> (string \<rightharpoonup> string)) list"

definition AddFields ::
  "string \<Rightarrow> fields \<Rightarrow> (string \<rightharpoonup> string) \<Rightarrow> accumulator \<Rightarrow> accumulator" where
  "AddFields m flds tags acc = acc @ [(m, flds, tags)]"

definition measurement :: string where
  "measurement = ''pf''"

text \<open>
  \<open>parsePfctlOutput\<close> returns its error (\<open>None\<close> is nil), the accumulator, and the
  package variables as the call leaves them.
\<close>

definition parsePfctlOutput ::
  "string \<Rightarrow> accumulator \<Rightarrow> pf_vars \<Rightarrow> error option \<times> accumulator \<times> pf_vars" where
  "parsePfctlOutput pfoutput acc vars =
     (case scan_loop (Stanzas vars) (NewScanner pfoutput) Map.empty (Tables vars) of
        (Some perr, ss, flds, tb) \<Rightarrow> (Some perr, acc, \<lparr>Stanzas = ss, Tables = tb\<rparr>)
      | (None, ss, flds, tb) \<Rightarrow>
          (case check_found ss of
             Some e \<Rightarrow> (Some e, acc, \<lparr>Stanzas = ss, Tables = tb\<rparr>)
           | None \<Rightarrow>
               (None, AddFields measurement flds Map.empty acc,
                \<lparr>Stanzas = ss, Tables = tb\<rparr>)))"

subsection \<open>Sample outputs of \<open>pfctl -s info\<close>\<close>

definition unlines :: "string list \<Rightarrow> string" where
  "unlines ls = concat (map (\<lambda>l. l @ [CHR 0x0A]) ls)"

definition status_lines :: "string list" where
  "status_lines =
    [''Status: Enabled for 0 days 00:26:05           Debug: Urgent'',
     []]"

definition interface_lines :: "string list" where
  "interface_lines =
    [''Interface Stats for em0               IPv4             IPv6'',
     ''  Bytes In    100    200'',
     ''  Bytes Out   300    400'',
     ''  Packets In'',
     ''    Passed                             10               20'',
     ''    Blocked                            30               40'',
     ''  Packets Out'',
     ''    Passed                             50               60'',
     ''    Blocked                            70               80'',
     []]"

definition state_lines :: "string list" where
  "state_lines =
    [''State Table                          Total             Rate'',
     ''  current entries                        2'',
     ''  searches                           11325            7.2/s'',
     ''  inserts                                5            0.0/s'',
     ''  removals                               3            0.0/s'']"

definition counter_lines :: "string list" where
  "counter_lines =
    [''Counters'',
     ''  match                              11226            7.2/s'',
     ''  bad-offset                             0            0.0/s'',
     ''  fragment                               0            0.0/s'',
     ''  short                                  0            0.0/s'',
     ''  normalize                              0            0.0/s'',
     ''  memory                                 0            0.0/s'',
     ''  bad-timestamp                          0            0.0/s'',
     ''  congestion                             0            0.0/s'',
     ''  ip-option                              0            0.0/s'',
     ''  proto-cksum                            0            0.0/s'',
     ''  state-mismatch                         0            0.0/s'',
     ''  state-insert                           0            0.0/s'',
     ''  state-limit                            0            0.0/s'',
     ''  src-limit                              0            0.0/s'',
     ''  synproxy                               0            0.0/s'']"

definition sample_text :: string where
  "sample_text = unlines (status_lines @ interface_lines @ state_lines @ counter_lines)"

definition sample_text_no_interface :: string where
  "sample_text_no_interface = unlines (status_lines @ state_lines @ counter_lines)"

text \<open>The fields of the only call of \<open>AddFields\<close> in an accumulator, for reading results.\<close>

definition emitted :: "accumulator \<Rightarrow> fields" where
  "emitted acc = (case acc of [(m, flds, tags)] \<Rightarrow> flds | _ \<Rightarrow> Map.empty)"

subsection \<open>Values are never negative\<close>

lemma ws_digits_digits:
  "ws_digits t = Some (d, r) \<Longrightarrow> d \<noteq> [] \<and> list_all is_digit d"
  by (auto simp: ws_digits_def Let_def list_all_iff split: if_splits dest: set_takeWhileD)

lemma lazy_dot_result:
  "lazy_dot re s = Some (l, x) \<Longrightarrow> \<exists>t. re t = Some x"
proof (induction s arbitrary: l)
  case Nil
  then show ?case by (auto split: option.splits)
next
  case (Cons c cs)
  then show ?case by (auto split: option.splits if_splits)
qed

lemma greedy_ws_result:
  "greedy_ws re line k = Some (l, x) \<Longrightarrow> \<exists>t. re t = Some x"
  by (induction k) (auto split: option.splits dest: lazy_dot_result)

lemma label_value_RE_digits:
  "label_value_RE line = Some (l, d) \<Longrightarrow> d \<noteq> [] \<and> list_all is_digit d"
  unfolding label_value_RE_def
  by (auto dest!: greedy_ws_result ws_digits_digits)

lemma digit_val_nonneg: "is_digit c \<Longrightarrow> 0 \<le> digit_val c"
  by (auto simp: is_digit_def digit_val_def)

lemma foldl_decimal_nonneg:
  "list_all is_digit ds \<Longrightarrow> 0 \<le> n \<Longrightarrow> 0 \<le> foldl (\<lambda>n c. 10 * n + digit_val c) n ds"
  by (induction ds arbitrary: n) (auto simp: digit_val_nonneg)

lemma decimal_nonneg: "list_all is_digit ds \<Longrightarrow> 0 \<le> decimal ds"
  unfolding decimal_def by (rule foldl_decimal_nonneg) auto

lemma ParseInt_digits_nonneg:
  assumes "d \<noteq> []" "list_all is_digit d"
  shows "0 \<le> fst (ParseInt d)"
proof -
  from assms have "is_digit (hd d)" by (cases d) auto
  then have "hd d \<noteq> CHR ''-''" "hd d \<noteq> CHR ''+''" by (auto simp: is_digit_def)
  with assms show ?thesis
    by (auto simp: ParseInt_def Let_def decimal_nonneg)
qed

definition table_ok :: "Entry list \<Rightarrow> bool" where
  "table_ok tbl \<longleftrightarrow> list_all (\<lambda>e. - 1 \<le> Value e) tbl"

definition fields_ok :: "fields \<Rightarrow> bool" where
  "fields_ok flds \<longleftrightarrow> (\<forall>k v. flds k = Some v \<longrightarrow> 0 \<le> v)"

lemma store_entries_ok:
  "d \<noteq> [] \<Longrightarrow> list_all is_digit d \<Longrightarrow> table_ok tbl \<Longrightarrow> table_ok (snd (store_entries lab d tbl))"
proof (induction tbl)
  case Nil
  then show ?case by simp
next
  case (Cons f fs)
  have "0 \<le> fst (ParseInt d)" using Cons.prems by (simp add: ParseInt_digits_nonneg)
  then show ?case using Cons
    by (cases "ParseInt d") (auto simp: table_ok_def split: prod.splits option.splits)
qed

lemma store_lines_ok:
  "table_ok tbl \<Longrightarrow> table_ok (snd (store_lines label_value_RE lines tbl))"
proof (induction lines arbitrary: tbl)
  case Nil
  then show ?case by simp
next
  case (Cons v vs)
  show ?case
  proof (cases "label_value_RE v")
    case None
    then show ?thesis using Cons by simp
  next
    case (Some p)
    obtain lab d where p: "p = (lab, d)" by (cases p) auto
    have ok: "table_ok (snd (store_entries lab d tbl))"
      using label_value_RE_digits [of v lab d] Some p Cons.prems store_entries_ok by simp
    show ?thesis using Some p ok Cons.IH [of "snd (store_entries lab d tbl)"]
      by (cases "store_entries lab d tbl") (auto split: option.splits)
  qed
qed

lemma copy_fields_ok:
  "table_ok tbl \<Longrightarrow> fields_ok m \<Longrightarrow> fields_ok (snd (copy_fields tbl m))"
proof (induction tbl arbitrary: m)
  case Nil
  then show ?case by simp
next
  case (Cons v vs)
  show ?case
  proof (cases "Value v = - 1")
    case True
    then show ?thesis using Cons.prems by simp
  next
    case False
    with Cons.prems have "0 \<le> Value v" by (simp add: table_ok_def)
    then have "fields_ok (m(Field v \<mapsto> Value v))"
      using Cons.prems by (simp add: fields_ok_def)
    with False Cons show ?thesis by (simp add: table_ok_def)
  qed
qed

lemma storeFieldValues_ok:
  assumes "table_ok tbl" "fields_ok flds"
  shows "fields_ok (fst (snd (storeFieldValues lines label_value_RE flds tbl)))
       \<and> table_ok (snd (snd (storeFieldValues lines label_value_RE flds tbl)))"
proof -
  obtain r tbl' where s: "store_lines label_value_RE lines tbl = (r, tbl')"
    by (cases "store_lines label_value_RE lines tbl") auto
  have t: "table_ok tbl'" using store_lines_ok [OF assms(1), of lines] s by simp
  show ?thesis using s t assms(2) copy_fields_ok [OF t assms(2)]
    by (cases r; cases "copy_fields tbl' flds") (auto simp: storeFieldValues_def)
qed

definition tables_ok :: "tables \<Rightarrow> bool" where
  "tables_ok tb \<longleftrightarrow>
     table_ok (varInterfaceTable tb) \<and> table_ok (varStateTable tb) \<and> table_ok (varCounterTable tb)"

lemma call_ParseFunc_ok:
  assumes "tables_ok tb" "fields_ok flds"
  shows "fields_ok (fst (snd (call_ParseFunc pf lines flds tb)))
       \<and> tables_ok (snd (snd (call_ParseFunc pf lines flds tb)))"
proof (cases pf)
  case ParseInterfaceTable
  then show ?thesis
    using assms storeFieldValues_ok [of "varInterfaceTable tb" flds lines]
    by (auto simp: parseInterfaceTable_def interfaceTableRE_def tables_ok_def split: prod.splits)
next
  case ParseStateTable
  then show ?thesis
    using assms storeFieldValues_ok [of "varStateTable tb" flds lines]
    by (auto simp: parseStateTable_def stateTableRE_def tables_ok_def split: prod.splits)
next
  case ParseCounterTable
  then show ?thesis
    using assms storeFieldValues_ok [of "varCounterTable tb" flds lines]
    by (auto simp: parseCounterTable_def counterTableRE_def tables_ok_def split: prod.splits)
qed

lemma range_stanzas_ok:
  "tables_ok tb \<Longrightarrow> fields_ok flds \<Longrightarrow>
   range_stanzas ss sc line flds tb = (r, ss', sc', line', flds', tb') \<Longrightarrow>
   fields_ok flds' \<and> tables_ok tb'"
proof (induction ss arbitrary: sc line flds tb r ss' sc' line' flds' tb')
  case Nil
  then show ?case by simp
next
  case (Cons s ss)
  show ?case
  proof (cases "hasPrefix (HeaderRE s) line")
    case False
    then show ?thesis
      using Cons.prems Cons.IH [OF Cons.prems(1) Cons.prems(2)]
      by (auto split: prod.splits)
  next
    case True
    obtain sc1 line1 stanzaLines where c:
      "collect (snd (Scan sc)) (Text (snd (Scan sc))) [] = (sc1, line1, stanzaLines)"
      by (cases "collect (snd (Scan sc)) (Text (snd (Scan sc))) []") auto
    obtain e flds1 tb1 where p:
      "call_ParseFunc (ParseFunc s) stanzaLines flds tb = (e, flds1, tb1)"
      by (cases "call_ParseFunc (ParseFunc s) stanzaLines flds tb") auto
    have ok: "fields_ok flds1 \<and> tables_ok tb1"
      using call_ParseFunc_ok [OF Cons.prems(1) Cons.prems(2), of "ParseFunc s" stanzaLines] p
      by simp
    show ?thesis
    proof (cases e)
      case None
      then show ?thesis
        using True c p ok Cons.prems(3) Cons.IH [of tb1 flds1 sc1 line1]
        by (auto split: prod.splits)
    next
      case (Some perr)
      then show ?thesis
        using True c p ok Cons.prems(3) by auto
    qed
  qed
qed

lemma scan_loop_ok:
  "tables_ok tb \<Longrightarrow> fields_ok flds \<Longrightarrow>
   scan_loop ss sc flds tb = (r, ss', flds', tb') \<Longrightarrow> fields_ok flds' \<and> tables_ok tb'"
proof (induction ss sc flds tb rule: scan_loop.induct)
  case (1 ss sc flds tb)
  obtain hasMore sc1 where scn: "Scan sc = (hasMore, sc1)" by (cases "Scan sc") auto
  show ?case
  proof (cases hasMore)
    case False
    then show ?thesis using "1.prems" scn by (simp add: scan_loop.simps [of ss sc])
  next
    case True
    obtain e ss1 sc2 line2 flds1 tb1 where rs:
      "range_stanzas ss sc1 (Text sc1) flds tb = (e, ss1, sc2, line2, flds1, tb1)"
      by (cases "range_stanzas ss sc1 (Text sc1) flds tb") auto
    have ok: "fields_ok flds1 \<and> tables_ok tb1"
      using range_stanzas_ok [OF "1.prems"(1) "1.prems"(2) rs] .
    show ?thesis
    proof (cases e)
      case (Some perr)
      then show ?thesis using "1.prems"(3) scn True rs ok
        by (simp add: scan_loop.simps [of ss sc])
    next
      case None
      have "scan_loop ss1 sc2 flds1 tb1 = (r, ss', flds', tb')"
        using "1.prems"(3) scn True rs None by (simp add: scan_loop.simps [of ss sc])
      then show ?thesis
        using "1.IH" [OF scn [symmetric] True rs [symmetric] None refl refl refl refl] ok
        by blast
    qed
  qed
qed

lemma fresh_tables_ok: "tables_ok (Tables fresh_vars)"
  by (simp add: fresh_vars_def fresh_tables_def tables_ok_def table_ok_def
      InterfaceTable_def StateTable_def CounterTable_def mkEntry_def)

subsection \<open>From a text to its lines\<close>

text \<open>
  A line the scanner hands out unchanged: no newline in it, short enough for the buffer,
  and no carriage return at its end.
\<close>

definition line_ok :: "string \<Rightarrow> bool" where
  "line_ok l \<longleftrightarrow> CHR 0x0A \<notin> set l \<and> length l \<le> 65535 \<and> (l = [] \<or> last l \<noteq> CHR 0x0D)"

lemma scanLines_line:
  "CHR 0x0A \<notin> set l \<Longrightarrow> length cur + length l \<le> 65535 \<Longrightarrow>
   scanLines cur (l @ CHR 0x0A # rest) = Some (dropCR (rev cur @ l)) # scanLines [] rest"
  by (induction l arbitrary: cur) auto

lemma scanLines_unlines:
  "list_all line_ok ls \<Longrightarrow> scanLines [] (unlines ls) = map Some ls"
proof (induction ls)
  case Nil
  then show ?case by (simp add: unlines_def)
next
  case (Cons l ls)
  then have l: "line_ok l" and ls: "list_all line_ok ls" by auto
  have "scanLines [] (l @ CHR 0x0A # unlines ls)
          = Some (dropCR (rev [] @ l)) # scanLines [] (unlines ls)"
    using l by (intro scanLines_line) (auto simp: line_ok_def)
  moreover have "dropCR l = l" using l by (auto simp: dropCR_def line_ok_def)
  ultimately show ?case using Cons.IH [OF ls] by (simp add: unlines_def)
qed

subsection \<open>Running the parser on the samples\<close>

lemmas sample_defs = status_lines_def interface_lines_def state_lines_def counter_lines_def

lemmas re_defs = is_space_def is_digit_def is_upper_def anyTableHeaderRE_def packetsRE_def
  ws_digits_def ws_digits2_def bytesRE_def IPvRE_def label_value_RE_def interfaceTableRE_def
  stateTableRE_def counterTableRE_def Let_def

lemmas run_defs = collect.simps scan_loop.simps stanza_line_def packets_sub_def Text_def
  storeFieldValues_def parseInterfaceTable_def parseStateTable_def parseCounterTable_def
  parsePfctlOutput_def NewScanner_def
  fresh_vars_def fresh_tables_def pfctlOutputStanzas_def InterfaceTable_def StateTable_def
  CounterTable_def mkEntry_def AddFields_def measurement_def

lemmas num_defs = ParseInt_def decimal_def digit_val_def

definition state_counter_fields :: fields where
  "state_counter_fields =
     [''entries'' \<mapsto> 2, ''searches'' \<mapsto> 11325, ''inserts'' \<mapsto> 5,
      ''removals'' \<mapsto> 3, ''match'' \<mapsto> 11226, ''bad-offset'' \<mapsto> 0,
      ''fragment'' \<mapsto> 0, ''short'' \<mapsto> 0, ''normalize'' \<mapsto> 0, ''memory'' \<mapsto> 0,
      ''bad-timestamp'' \<mapsto> 0, ''congestion'' \<mapsto> 0, ''ip-option'' \<mapsto> 0,
      ''proto-cksum'' \<mapsto> 0, ''state-mismatch'' \<mapsto> 0, ''state-insert'' \<mapsto> 0,
      ''state-limit'' \<mapsto> 0, ''src-limit'' \<mapsto> 0, ''synproxy'' \<mapsto> 0]"

lemma scan_sample_text_no_interface:
  "scanLines [] sample_text_no_interface = map Some (status_lines @ state_lines @ counter_lines)"
  unfolding sample_text_no_interface_def
  by (rule scanLines_unlines) (simp add: line_ok_def sample_defs)

lemma parse_sample_text_no_interface:
  "(case parsePfctlOutput sample_text_no_interface acc fresh_vars of
      (err, acc', vars') \<Rightarrow>
        err = None \<and> acc' = acc @ [(''pf'', state_counter_fields, Map.empty)]
        \<and> map Found (Stanzas vars') = [False, True, True])"
  by (simp add: scan_sample_text_no_interface sample_defs re_defs run_defs num_defs
      state_counter_fields_def)

section \<open>Properties\<close>

text \<open>
  Claim C7. Parsing the empty string from the fresh package variables returns the
  section-not-found error \<open>errParseHeader\<close>, and the accumulator is left as it was: no
  call of \<open>AddFields\<close> is made.
\<close>

theorem C7_empty_input:
  "parsePfctlOutput [] acc fresh_vars = (Some errParseHeader, acc, fresh_vars)"
  by (simp add: parsePfctlOutput_def NewScanner_def fresh_vars_def pfctlOutputStanzas_def
      scan_loop.simps [of _ "([], [])"])

text \<open>
  Claim C6. Whatever the input and the package variables, \<open>parsePfctlOutput\<close> calls
  \<open>AddFields\<close> exactly when it returns nil: a nil result leaves the accumulator with one
  more entry, and any error leaves the accumulator as it was.
\<close>

theorem C6_no_output_on_error:
  assumes "parsePfctlOutput pfoutput acc vars = (err, acc', vars')"
  shows "(err = None \<longleftrightarrow> (\<exists>flds. acc' = AddFields measurement flds Map.empty acc))
     \<and> (err \<noteq> None \<longrightarrow> acc' = acc)"
proof -
  obtain r ss flds tb where sl:
    "scan_loop (Stanzas vars) (NewScanner pfoutput) Map.empty (Tables vars) = (r, ss, flds, tb)"
    by (cases "scan_loop (Stanzas vars) (NewScanner pfoutput) Map.empty (Tables vars)") auto
  show ?thesis
  proof (cases r)
    case (Some perr)
    then show ?thesis using assms sl by (auto simp: parsePfctlOutput_def AddFields_def)
  next
    case None
    then show ?thesis using assms sl
      by (cases "check_found ss") (auto simp: parsePfctlOutput_def AddFields_def dest: sym)
  qed
qed

theorem C6_no_output_on_error_witness:
  "parsePfctlOutput [] [] fresh_vars = (Some errParseHeader, [], fresh_vars)
   \<and> \<not> (\<exists>flds. [] = AddFields measurement flds Map.empty [])"
proof -
  have h: "parsePfctlOutput [] [] fresh_vars = (Some errParseHeader, [], fresh_vars)"
    by (simp add: parsePfctlOutput_def NewScanner_def fresh_vars_def pfctlOutputStanzas_def
        scan_loop.simps [of _ "([], [])"])
  from C6_no_output_on_error [OF h] show ?thesis using h by simp
qed

text \<open>
  Claim C10. When no table slot is below the sentinel -1 at the start (the fresh
  variables have every slot at -1), every value in the map of a successful parse is
  non-negative, and so differs from the sentinel: the value expressions capture digit
  runs only (\<open>label_value_RE_digits\<close>) and \<open>ParseInt\<close> of a digit run is never negative.
\<close>

theorem C10_values_nonnegative:
  assumes "tables_ok (Tables vars)"
    and "parsePfctlOutput pfoutput acc vars = (None, acc', vars')"
  shows "\<exists>flds. acc' = AddFields measurement flds Map.empty acc
           \<and> (\<forall>k v. flds k = Some v \<longrightarrow> 0 \<le> v \<and> v \<noteq> - 1)"
proof -
  obtain r ss flds tb where sl:
    "scan_loop (Stanzas vars) (NewScanner pfoutput) Map.empty (Tables vars) = (r, ss, flds, tb)"
    by (cases "scan_loop (Stanzas vars) (NewScanner pfoutput) Map.empty (Tables vars)") auto
  have "fields_ok Map.empty" by (simp add: fields_ok_def)
  from scan_loop_ok [OF assms(1) this sl] have ok: "fields_ok flds" by simp
  have "acc' = AddFields measurement flds Map.empty acc"
    using assms(2) sl by (auto simp: parsePfctlOutput_def split: option.splits)
  moreover have "\<forall>k v. flds k = Some v \<longrightarrow> 0 \<le> v \<and> v \<noteq> - 1"
    using ok by (fastforce simp: fields_ok_def)
  ultimately show ?thesis by blast
qed

theorem C10_values_nonnegative_witness:
  "tables_ok (Tables fresh_vars)
   \<and> fst (parsePfctlOutput sample_text_no_interface [] fresh_vars) = None
   \<and> (\<exists>v. emitted (fst (snd (parsePfctlOutput sample_text_no_interface [] fresh_vars)))
              ''searches'' = Some v \<and> 0 \<le> v \<and> v \<noteq> - 1)"
proof -
  obtain err acc' vars' where p:
    "parsePfctlOutput sample_text_no_interface [] fresh_vars = (err, acc', vars')"
    by (cases "parsePfctlOutput sample_text_no_interface [] fresh_vars") auto
  have e: "err = None" and a: "acc' = [(''pf'', state_counter_fields, Map.empty)]"
    using parse_sample_text_no_interface [of "[]"] p by simp_all
  from C10_values_nonnegative [OF fresh_tables_ok p [unfolded e]]
  obtain flds where f: "acc' = AddFields measurement flds Map.empty []"
    and v: "\<forall>k v. flds k = Some v \<longrightarrow> 0 \<le> v \<and> v \<noteq> - 1" by blast
  have fl: "emitted acc' = flds" using f by (simp add: emitted_def AddFields_def)
  have "emitted acc' ''searches'' = Some 11325"
    using a by (simp add: emitted_def state_counter_fields_def)
  then have "\<exists>v. emitted acc' ''searches'' = Some v \<and> 0 \<le> v \<and> v \<noteq> - 1"
    using v fl by auto
  then show ?thesis using fresh_tables_ok p e by simp
qed

end
